theory Spec2Isabelle
  imports Complex_Main
begin

section \<open>Values and errors\<close>

text \<open>
  The program computes with IEEE doubles (Python floats, numpy float64). A finite double
  is modelled by a real; the three non-finite values that numpy arithmetic can produce
  are constructors of their own, so that "the result is finite" is a statement about the
  model and not a property of the type. Rounding, overflow of finite operations and the
  sign of zero are not modelled: a zero divisor counts as \<open>+0\<close>.
\<close>

datatype fval = Fin real | PosInf | NegInf | NaN

datatype error = IndexError | ValueError | AttributeError | KeyError

fun is_finite :: "fval \<Rightarrow> bool" where
  "is_finite (Fin x) = True"
| "is_finite PosInf = False"
| "is_finite NegInf = False"
| "is_finite NaN = False"

fun fneg :: "fval \<Rightarrow> fval" where
  "fneg (Fin a) = Fin (- a)"
| "fneg PosInf = NegInf"
| "fneg NegInf = PosInf"
| "fneg NaN = NaN"

fun fabs :: "fval \<Rightarrow> fval" where
  "fabs (Fin a) = Fin \<bar>a\<bar>"
| "fabs PosInf = PosInf"
| "fabs NegInf = PosInf"
| "fabs NaN = NaN"

fun fadd :: "fval \<Rightarrow> fval \<Rightarrow> fval" where
  "fadd (Fin a) (Fin b) = Fin (a + b)"
| "fadd NaN y = NaN"
| "fadd x NaN = NaN"
| "fadd PosInf NegInf = NaN"
| "fadd NegInf PosInf = NaN"
| "fadd PosInf y = PosInf"
| "fadd x PosInf = PosInf"
| "fadd NegInf y = NegInf"
| "fadd x NegInf = NegInf"

definition fsub :: "fval \<Rightarrow> fval \<Rightarrow> fval" where
  "fsub x y = fadd x (fneg y)"

text \<open>The product of an infinity with a finite factor: the factor's sign decides, zero gives NaN.\<close>

definition inf_times :: "fval \<Rightarrow> real \<Rightarrow> fval" where
  "inf_times i a = (if a > 0 then i else if a < 0 then fneg i else NaN)"

fun fmul :: "fval \<Rightarrow> fval \<Rightarrow> fval" where
  "fmul (Fin a) (Fin b) = Fin (a * b)"
| "fmul NaN y = NaN"
| "fmul x NaN = NaN"
| "fmul (Fin a) PosInf = inf_times PosInf a"
| "fmul (Fin a) NegInf = inf_times NegInf a"
| "fmul PosInf (Fin b) = inf_times PosInf b"
| "fmul NegInf (Fin b) = inf_times NegInf b"
| "fmul PosInf PosInf = PosInf"
| "fmul PosInf NegInf = NegInf"
| "fmul NegInf PosInf = NegInf"
| "fmul NegInf NegInf = PosInf"

text \<open>Division under numpy: a zero divisor gives an infinity or NaN and no exception.\<close>

fun fdiv :: "fval \<Rightarrow> fval \<Rightarrow> fval" where
  "fdiv (Fin a) (Fin b) =
     (if b = 0 then (if a > 0 then PosInf else if a < 0 then NegInf else NaN)
      else Fin (a / b))"
| "fdiv NaN y = NaN"
| "fdiv x NaN = NaN"
| "fdiv (Fin a) PosInf = Fin 0"
| "fdiv (Fin a) NegInf = Fin 0"
| "fdiv PosInf (Fin b) = (if b < 0 then NegInf else PosInf)"
| "fdiv NegInf (Fin b) = (if b < 0 then PosInf else NegInf)"
| "fdiv PosInf PosInf = NaN"
| "fdiv PosInf NegInf = NaN"
| "fdiv NegInf PosInf = NaN"
| "fdiv NegInf NegInf = NaN"

text \<open>\<open>x < y\<close> on doubles: false as soon as one side is NaN.\<close>

fun fless :: "fval \<Rightarrow> fval \<Rightarrow> bool" where
  "fless (Fin a) (Fin b) = (a < b)"
| "fless NaN y = False"
| "fless x NaN = False"
| "fless NegInf NegInf = False"
| "fless NegInf y = True"
| "fless x NegInf = False"
| "fless PosInf y = False"
| "fless x PosInf = True"

text \<open>\<open>np.clip(x, lo, hi)\<close>, that is \<open>minimum(maximum(x, lo), hi)\<close>; NaN passes through.\<close>

definition clip :: "real \<Rightarrow> real \<Rightarrow> real \<Rightarrow> real" where
  "clip x lo hi = min (max x lo) hi"

fun fclip :: "fval \<Rightarrow> real \<Rightarrow> real \<Rightarrow> fval" where
  "fclip (Fin x) lo hi = Fin (clip x lo hi)"
| "fclip PosInf lo hi = Fin hi"
| "fclip NegInf lo hi = Fin (min lo hi)"
| "fclip NaN lo hi = NaN"

text \<open>\<open>np.mean\<close> of a list of doubles: the sum from zero, divided by the length.\<close>

definition fmean :: "fval list \<Rightarrow> fval" where
  "fmean xs = fdiv (foldl fadd (Fin 0) xs) (Fin (real (length xs)))"

text \<open>The slice \<open>xs[-3:]\<close>: the last three elements, or all of them when there are fewer.\<close>

definition last3 :: "'a list \<Rightarrow> 'a list" where
  "last3 xs = drop (length xs - 3) xs"

text \<open>Sequencing of fallible steps: the first exception ends the computation.\<close>

definition ebind :: "error + 'a \<Rightarrow> ('a \<Rightarrow> error + 'b) \<Rightarrow> error + 'b" where
  "ebind m f = (case m of Inl e \<Rightarrow> Inl e | Inr x \<Rightarrow> f x)"

section \<open>The optimizer instance\<close>

text \<open>
  The attributes that \<open>load_data\<close> creates (\<open>solar_failure\<close> to \<open>grid_price\<close>) do not
  exist on a fresh instance; they are grouped in one optional record, \<open>None\<close> until
  \<open>load_data\<close> has run. \<open>emergency_event\<close> is created by the constructor.
\<close>

record scenario =
  solar_failure :: "int list"
  wind_failure :: "int list"
  grid_available :: "int list"
  P_solar :: "real list"
  P_wind :: "real list"
  P_gen :: "real list"
  P_demand :: "real list"
  grid_price :: "real list"

record optimizer =
  hours :: nat
  pop_size :: nat
  max_iter :: nat
  capital_cost :: real
  c_deg :: real
  charge_eff :: real
  discharge_eff :: real
  SOC_min :: real
  SOC_max :: real
  data_variation :: real
  temperature :: fval
  SOC_capacity_decay :: "real list"
  emergency_event :: "int list"
  data :: "scenario option"

text \<open>\<open>RenewableOptimizer.__init__(hours=24, population=30, max_iter=50)\<close>.\<close>

definition RenewableOptimizer :: "nat \<Rightarrow> nat \<Rightarrow> nat \<Rightarrow> optimizer" where
  "RenewableOptimizer hrs population mx =
     \<lparr>hours = hrs, pop_size = population, max_iter = mx,
      capital_cost = 500, c_deg = 0.02, charge_eff = 0.95, discharge_eff = 0.95,
      SOC_min = 0.1, SOC_max = 0.9, data_variation = 0.15, temperature = Fin 25,
      SOC_capacity_decay = map (\<lambda>i. 1.0 - 0.005 * real i) [0..<24],
      emergency_event = replicate 24 0, data = None\<rparr>"

section \<open>load_data\<close>

text \<open>
  numpy's global random generator is not part of the repository. It is a parameter of the
  model: a state of type \<open>'g\<close>, the reseeding \<open>np.random.seed\<close> (which rejects some
  seeds), and one function per kind of draw the code makes, each returning the values
  drawn and the next state.
\<close>

record 'g np_random =
  rng_seed :: "int \<Rightarrow> error + 'g"
  rng_randn :: "nat \<Rightarrow> 'g \<Rightarrow> real list \<times> 'g"
  rng_choice :: "int list \<Rightarrow> nat \<Rightarrow> real list \<Rightarrow> 'g \<Rightarrow> int list \<times> 'g"
  rng_normal :: "real \<Rightarrow> real \<Rightarrow> nat \<Rightarrow> 'g \<Rightarrow> real list \<times> 'g"
  rng_sample :: "nat \<Rightarrow> nat \<Rightarrow> 'g \<Rightarrow> nat list \<times> 'g"
  rng_uniform :: "real \<Rightarrow> real \<Rightarrow> nat \<Rightarrow> 'g \<Rightarrow> real list \<times> 'g"

text \<open>
  An elementwise operation on two one-dimensional arrays under numpy's broadcasting:
  equal lengths, or one side of length one, anything else raises ValueError.
\<close>

definition bcast :: "(real \<Rightarrow> real \<Rightarrow> real) \<Rightarrow> real list \<Rightarrow> real list \<Rightarrow> error + real list" where
  "bcast f xs ys =
     (if length xs = length ys then Inr (map2 f xs ys)
      else if length xs = 1 then Inr (map (f (hd xs)) ys)
      else if length ys = 1 then Inr (map (\<lambda>x. f x (hd ys)) xs)
      else Inl ValueError)"

text \<open>
  \<open>a[idx] *= fs\<close> with an index array: \<open>a[idx]\<close> is read first (IndexError out of
  range), multiplied by \<open>fs\<close> under broadcasting, and written back index by index, every
  product being computed from the array as it was before the statement.
\<close>

definition fancy_imul :: "real list \<Rightarrow> nat list \<Rightarrow> real list \<Rightarrow> error + real list" where
  "fancy_imul a idx fs =
     (if list_all (\<lambda>i. i < length a) idx
      then ebind (bcast (*) (map (\<lambda>i. a ! i) idx) fs)
             (\<lambda>prod. if length prod = length idx
                      then Inr (fold (\<lambda>(i, v) b. b[i := v]) (zip idx prod) a)
                      else Inl ValueError)
      else Inl IndexError)"

text \<open>
  \<open>load_data(self, trial_num)\<close>. The global generator state before the call is the last
  argument; the call returns the instance with the scenario attributes set and the
  generator state after the last draw. An exception leaves the method before the
  attributes are complete; the model then returns the exception only.
\<close>

definition load_data :: "'g np_random \<Rightarrow> optimizer \<Rightarrow> int \<Rightarrow> 'g \<Rightarrow> error + optimizer \<times> 'g" where
  "load_data rng self trial_num g_before =
     ebind (rng_seed rng trial_num) (\<lambda>g0.
       let t = map int [0..<hours self];
           base_solar = map (\<lambda>t. 50 * sin (pi * real_of_int (t - 6) / 12) + 1) t;
           base_wind = map (\<lambda>t. 30 * cos (pi * real_of_int (t - 12) / 6) + 5) t;
           base_demand = map (\<lambda>t. 80 + 30 * sin (pi * real_of_int (t + 6) / 12)) t;
           base_price = map (\<lambda>t. 0.15 + 0.05 * sin (pi * real_of_int (t - 8) / 12) + 0.05) t;
           (z, g1) = rng_randn rng (hours self) g0;
           variation = map (\<lambda>x. 1 + data_variation self * x) z;
           (sf, g2) = rng_choice rng [0, 1] 24 [0.9, 0.1] g1;
           (wf, g3) = rng_choice rng [0, 1] 24 [0.85, 0.15] g2;
           (ga, g4) = rng_choice rng [0, 1] 24 [0.2, 0.8] g3;
           (ee, g5) = rng_choice rng [0, 1] 24 [0.9, 0.1] g4
       in
       ebind (bcast (*) base_solar variation) (\<lambda>sv.
       ebind (bcast (*) sv (map real_of_int sf)) (\<lambda>svf.
       ebind (bcast (*) base_wind variation) (\<lambda>wv.
       ebind (bcast (*) wv (map real_of_int wf)) (\<lambda>wvf.
       ebind (bcast (+) (map (\<lambda>x. max x 0) svf) (map (\<lambda>x. max x 0) wvf)) (\<lambda>gen.
       ebind (bcast (*) base_demand variation) (\<lambda>dv.
       let (nz, g6) = rng_normal rng 1 0.15 24 g5 in
       ebind (bcast (*) dv nz) (\<lambda>dem.
       ebind (bcast (*) base_price variation) (\<lambda>pv.
       let (spike_hours, g7) = rng_sample rng 24 4 g6;
           (spike, g8) = rng_uniform rng 3 5 4 g7
       in
       ebind (fancy_imul (map (\<lambda>x. max x 0.05) pv) spike_hours spike) (\<lambda>price.
         Inr (self\<lparr>emergency_event := ee,
                   data := Some \<lparr>solar_failure = sf, wind_failure = wf, grid_available = ga,
                                 P_solar = map (\<lambda>x. max x 0) svf,
                                 P_wind = map (\<lambda>x. max x 0) wvf,
                                 P_gen = gen, P_demand = dem, grid_price = price\<rparr>\<rparr>,
              g8)))))))))))"

section \<open>energy_cost\<close>

text \<open>The local variables of \<open>energy_cost\<close> that the hourly loop carries.\<close>

record locals =
  total_cost :: fval
  SOC :: fval
  SOC_history :: "fval list"

text \<open>
  One pass of the loop body for hour \<open>t_i\<close>. Every subscript is a branch: the reads of
  \<open>SOC_capacity_decay\<close>, \<open>u\<close>, \<open>P_demand\<close>, \<open>P_gen\<close>, \<open>emergency_event\<close>,
  \<open>grid_available\<close> and (only when \<open>P_grid > 0\<close>) \<open>grid_price\<close> all come before the
  first assignment to \<open>self.temperature\<close>, so an exception leaves the instance as the
  previous hour left it.
\<close>

definition hour_step :: "real \<Rightarrow> real list \<Rightarrow> nat \<Rightarrow> optimizer \<Rightarrow> locals \<Rightarrow> error + optimizer \<times> locals" where
  "hour_step S u t_i self l =
     (if t_i < length (SOC_capacity_decay self) \<and> t_i < length u then
        (case data self of
           None \<Rightarrow> Inl AttributeError
         | Some d \<Rightarrow>
             if t_i < length (P_demand d) \<and> t_i < length (P_gen d)
                \<and> t_i < length (emergency_event self) \<and> t_i < length (grid_available d)
             then
               let effective_S = S * SOC_capacity_decay self ! t_i;
                   P_bess = u ! t_i * effective_S;
                   P_grid = P_demand d ! t_i - P_gen d ! t_i - P_bess
               in
               if P_grid \<le> 0 \<or> t_i < length (grid_price d) then
                 let required_power = P_demand d ! t_i * 1.5;
                     shortage = max 0 (required_power - (P_gen d ! t_i + P_bess));
                     c1 = (if emergency_event self ! t_i = 0 then total_cost l
                           else fadd (total_cost l) (Fin (shortage * 1000)));
                     c2 = (if grid_available d ! t_i = 0 \<and> P_grid > 0
                           then fadd c1 (Fin 1000000) else c1);
                     grid_cost = (if P_grid > 0 then P_grid * grid_price d ! t_i else 0);
                     degradation = fmul (Fin (0.02 * (\<bar>P_bess\<bar> powr 1.5)))
                                     (fadd (Fin 1) (fdiv (SOC l) (Fin 0.9)));
                     carbon_cost = P_grid * 0.487 * 2;
                     c3 = fadd c2 (fadd (fadd (Fin grid_cost) degradation) (Fin carbon_cost));
                     delta_temp = fdiv (fabs (fdiv (Fin P_bess) (Fin effective_S))) (Fin 0.05);
                     temp = fadd (temperature self) delta_temp;
                     c4 = (if fless (Fin 45) temp
                           then fadd c3 (fmul (fmul (fsub temp (Fin 45)) (fsub temp (Fin 45))) (Fin 10))
                           else c3);
                     delta = (if P_bess < 0
                              then fdiv (Fin (- P_bess * charge_eff self)) (Fin effective_S)
                              else fdiv (Fin (- P_bess)) (Fin (discharge_eff self * effective_S)));
                     soc = fclip (fadd (SOC l) delta) (SOC_min self) (SOC_max self);
                     hist = SOC_history l @ [soc];
                     c5 = (if 3 \<le> t_i \<and> fless (Fin 0.2) (fabs (fsub soc (fmean (last3 hist))))
                           then fadd c4 (Fin 10000) else c4)
                 in Inr (self\<lparr>temperature := temp\<rparr>,
                         \<lparr>total_cost = c5, SOC = soc, SOC_history = hist\<rparr>)
               else Inl IndexError
             else Inl IndexError)
      else Inl IndexError)"

text \<open>\<open>for t_i in range(self.hours)\<close>; the instance is returned also when an hour raises.\<close>

fun hour_loop :: "real \<Rightarrow> real list \<Rightarrow> nat list \<Rightarrow> optimizer \<Rightarrow> locals \<Rightarrow> (error + locals) \<times> optimizer" where
  "hour_loop S u [] self l = (Inr l, self)"
| "hour_loop S u (t_i # ts) self l =
     (case hour_step S u t_i self l of
        Inl e \<Rightarrow> (Inl e, self)
      | Inr (self', l') \<Rightarrow> hour_loop S u ts self' l')"

text \<open>
  The statements after the loop: the efficiency target over all of \<open>P_gen\<close>, \<open>u * S\<close>
  and \<open>P_demand\<close>, and the periodic term.
\<close>

definition finish_cost :: "real \<Rightarrow> real list \<Rightarrow> scenario \<Rightarrow> fval \<Rightarrow> fval" where
  "finish_cost S u d c =
     (let efficiency = fdiv (Fin (sum_list (P_gen d) + sum_list (map (\<lambda>x. x * S) u)))
                            (Fin (sum_list (P_demand d)));
          c' = (if fless efficiency (Fin 0.85)
                then fadd c (fmul (fsub (Fin 0.85) efficiency) (Fin 10000)) else c)
      in fadd c' (Fin (100 * \<bar>sin (S * 0.01)\<bar>)))"

text \<open>
  \<open>energy_cost(self, solution)\<close>: the value returned or the exception raised, and the
  instance after the call (only \<open>temperature\<close> is ever assigned).
\<close>

definition energy_cost :: "optimizer \<Rightarrow> real list \<Rightarrow> (error + fval) \<times> optimizer" where
  "energy_cost self solution =
     (case solution of
        [] \<Rightarrow> (Inl IndexError, self)
      | S # u \<Rightarrow>
          (case hour_loop S u [0..<hours self] (self\<lparr>temperature := Fin 25\<rparr>)
                  \<lparr>total_cost = Fin (capital_cost self * S), SOC = Fin 0.5, SOC_history = []\<rparr> of
             (Inl e, self') \<Rightarrow> (Inl e, self')
           | (Inr l, self') \<Rightarrow>
               (case data self' of
                  None \<Rightarrow> (Inl AttributeError, self')
                | Some d \<Rightarrow> (Inr (finish_cost S u d (total_cost l)), self'))))"

section \<open>calculate_soc\<close>

text \<open>
  \<open>delta\<close> of one hour of \<open>calculate_soc\<close>: \<open>P_bess = u[t] * S\<close>, then
  \<open>(-P_bess * 0.95) / S\<close> when \<open>P_bess < 0\<close> and \<open>-P_bess / (0.95 * S)\<close> otherwise.
\<close>

definition soc_delta :: "real \<Rightarrow> real \<Rightarrow> fval" where
  "soc_delta S ut =
     (let P_bess = ut * S in
      if P_bess < 0 then fdiv (Fin (- P_bess * 0.95)) (Fin S)
      else fdiv (Fin (- P_bess)) (Fin (0.95 * S)))"

text \<open>
  The loop \<open>for t in range(1, hours)\<close>: it reads \<open>u[t]\<close> (IndexError past the end of
  \<open>u\<close>) and \<open>SOC[t-1]\<close>, and writes \<open>SOC[t]\<close>.
\<close>

fun soc_loop :: "real \<Rightarrow> real list \<Rightarrow> nat list \<Rightarrow> fval list \<Rightarrow> error + fval list" where
  "soc_loop S u [] soc = Inr soc"
| "soc_loop S u (t # ts) soc =
     (if t < length u
      then soc_loop S u ts (soc[t := fclip (fadd (soc ! (t - 1)) (soc_delta S (u ! t))) 0.1 0.9])
      else Inl IndexError)"

text \<open>
  \<open>calculate_soc(solution, hours)\<close>: \<open>solution[0]\<close> raises on an empty solution, and
  \<open>SOC[0] = 0.5\<close> raises on an array of length zero.
\<close>

definition calculate_soc :: "real list \<Rightarrow> nat \<Rightarrow> error + fval list" where
  "calculate_soc solution hrs =
     (case solution of
        [] \<Rightarrow> Inl IndexError
      | S # u \<Rightarrow>
          if hrs = 0 then Inl IndexError
          else soc_loop S u [1..<hrs] ((replicate hrs (Fin 0))[0 := Fin 0.5]))"

section \<open>run_multiple_trials\<close>

text \<open>
  The search methods (\<open>run_gwwoa\<close>, \<open>run_pso\<close>, \<dots>) call libraries that are not part of
  the repository. A method is a parameter of the model: called on the world (the
  instance and the global generator state) it either raises or returns
  \<open>(best_x, history)\<close>, and leaves a world behind in both cases.
\<close>

datatype outcome = Raised | Returned "real list" "fval list"

type_synonym 'g world = "optimizer \<times> 'g"

type_synonym 'g methods = "string \<rightharpoonup> ('g world \<Rightarrow> outcome \<times> 'g world)"

text \<open>
  \<open>method = getattr(optimizer, method_name)\<close> followed by \<open>method()\<close>: a name that is
  no attribute raises (AttributeError) and touches nothing.
\<close>

definition call_method :: "'g methods \<Rightarrow> string \<Rightarrow> 'g world \<Rightarrow> outcome \<times> 'g world" where
  "call_method ms method_name w =
     (case ms method_name of None \<Rightarrow> (Raised, w) | Some f \<Rightarrow> f w)"

text \<open>
  The entry \<open>{'cost', 'history', 'solution'}\<close> of one algorithm in one trial: the
  \<open>try\<close> branch, with \<open>history[-1] if history else np.inf\<close>, and the \<open>except\<close> branch.
\<close>

type_synonym entry = "fval \<times> fval list \<times> real list option"

fun trial_entry :: "outcome \<Rightarrow> entry" where
  "trial_entry (Returned best_x history) =
     ((if history = [] then PosInf else last history), history, Some best_x)"
| "trial_entry Raised = (PosInf, [], None)"

text \<open>
  \<open>for name, method_name in algorithms.items()\<close>: the dictionary \<open>algorithms\<close> is an
  association list in insertion order (its keys are distinct), and so is
  \<open>trial_results\<close>.
\<close>

fun run_algorithms :: "'g methods \<Rightarrow> (string \<times> string) list \<Rightarrow> 'g world \<Rightarrow> (string \<times> entry) list \<times> 'g world" where
  "run_algorithms ms [] w = ([], w)"
| "run_algorithms ms ((name, method_name) # rest) w =
     (let (out, w') = call_method ms method_name w;
          (trial_results, w'') = run_algorithms ms rest w'
      in ((name, trial_entry out) # trial_results, w''))"

record trial_lists =
  costs :: "fval list"
  histories :: "fval list list"
  solutions :: "real list option list"

text \<open>
  \<open>for name, data in trial_results.items()\<close>: three appends to \<open>results[name]\<close>, which
  raises KeyError for a name that \<open>results\<close> does not hold.
\<close>

fun append_results :: "(string \<times> entry) list \<Rightarrow> (string \<rightharpoonup> trial_lists) \<Rightarrow> error + (string \<rightharpoonup> trial_lists)" where
  "append_results [] results = Inr results"
| "append_results ((name, (c, h, s)) # rest) results =
     (case results name of
        None \<Rightarrow> Inl KeyError
      | Some r \<Rightarrow>
          append_results rest
            (results(name \<mapsto> \<lparr>costs = costs r @ [c], histories = histories r @ [h],
                                 solutions = solutions r @ [s]\<rparr>)))"

text \<open>
  \<open>for trial in range(num_trials)\<close>: a new instance, \<open>load_data(trial)\<close> (outside the
  \<open>try\<close>: an exception of it ends the whole run), the algorithms, the appends.
\<close>

fun run_trials :: "'g np_random \<Rightarrow> 'g methods \<Rightarrow> optimizer \<Rightarrow> (string \<times> string) list \<Rightarrow> nat list
    \<Rightarrow> 'g \<Rightarrow> (string \<rightharpoonup> trial_lists) \<Rightarrow> error + (string \<rightharpoonup> trial_lists) \<times> 'g" where
  "run_trials rng ms optimizer_class algorithms [] g results = Inr (results, g)"
| "run_trials rng ms optimizer_class algorithms (trial # trials) g results =
     ebind (load_data rng optimizer_class (int trial) g) (\<lambda>w.
       let (trial_results, w') = run_algorithms ms algorithms w in
       ebind (append_results trial_results results) (\<lambda>results'.
         run_trials rng ms optimizer_class algorithms trials (snd w') results'))"

text \<open>
  \<open>run_multiple_trials(optimizer_class, algorithms, num_trials)\<close>; \<open>optimizer_class\<close>
  stands for the instance that calling the class creates.
\<close>

definition run_multiple_trials :: "'g np_random \<Rightarrow> 'g methods \<Rightarrow> optimizer \<Rightarrow> (string \<times> string) list \<Rightarrow> nat
    \<Rightarrow> 'g \<Rightarrow> error + (string \<rightharpoonup> trial_lists)" where
  "run_multiple_trials rng ms optimizer_class algorithms num_trials g =
     map_sum id fst
       (run_trials rng ms optimizer_class algorithms [0..<num_trials] g
          (map_of (map (\<lambda>(name, method_name).
             (name, \<lparr>costs = [], histories = [], solutions = []\<rparr>)) algorithms)))"

section \<open>analyze_results\<close>

text \<open>\<open>costs[np.isfinite(costs)]\<close>: the finite costs, in order.\<close>

fun valid_trials :: "fval list \<Rightarrow> real list" where
  "valid_trials [] = []"
| "valid_trials (Fin x # cs) = x # valid_trials cs"
| "valid_trials (PosInf # cs) = valid_trials cs"
| "valid_trials (NegInf # cs) = valid_trials cs"
| "valid_trials (NaN # cs) = valid_trials cs"

text \<open>
  \<open>np.mean\<close>, \<open>np.std\<close> (the population standard deviation), \<open>np.min\<close> and \<open>np.max\<close>
  of a non-empty array of finite values.
\<close>

definition np_mean :: "real list \<Rightarrow> real" where
  "np_mean xs = sum_list xs / real (length xs)"

definition np_std :: "real list \<Rightarrow> real" where
  "np_std xs = sqrt (np_mean (map (\<lambda>x. \<bar>x - np_mean xs\<bar> ^ 2) xs))"

definition np_min :: "real list \<Rightarrow> real" where
  "np_min xs = fold min (tl xs) (hd xs)"

definition np_max :: "real list \<Rightarrow> real" where
  "np_max xs = fold max (tl xs) (hd xs)"

record summary =
  mean :: fval
  std :: fval
  minimum :: fval
  maximum :: fval
  success_rate :: real

text \<open>The body of the loop of \<open>analyze_results\<close> for one algorithm.\<close>

definition analyze_costs :: "fval list \<Rightarrow> summary" where
  "analyze_costs cs =
     (let valid = valid_trials cs in
      if length valid = 0
      then \<lparr>mean = NaN, std = NaN, minimum = NaN, maximum = NaN, success_rate = 0\<rparr>
      else \<lparr>mean = Fin (np_mean valid), std = Fin (np_std valid),
            minimum = Fin (np_min valid), maximum = Fin (np_max valid),
            success_rate = real (length valid) / real (length cs)\<rparr>)"

definition analyze_results :: "(string \<rightharpoonup> trial_lists) \<Rightarrow> (string \<rightharpoonup> summary)" where
  "analyze_results results = (\<lambda>algo. map_option (\<lambda>d. analyze_costs (costs d)) (results algo))"

text \<open>The values a state of charge may take: finite and within \<open>[0.1, 0.9]\<close>.\<close>

fun soc_ok :: "fval \<Rightarrow> bool" where
  "soc_ok (Fin r) = (0.1 \<le> r \<and> r \<le> 0.9)"
| "soc_ok PosInf = False"
| "soc_ok NegInf = False"
| "soc_ok NaN = False"

section \<open>Instances and scenarios the properties are about\<close>

text \<open>
  An instance as the program builds it: constructed with 24 hours (the default; the
  population size and iteration count are free), then given an emergency-event array and
  a scenario, with any value left in \<open>temperature\<close> by earlier calls.
\<close>

definition configured :: "nat \<Rightarrow> nat \<Rightarrow> int list \<Rightarrow> scenario \<Rightarrow> fval \<Rightarrow> optimizer" where
  "configured p m ee d T =
     (RenewableOptimizer 24 p m)\<lparr>temperature := T, emergency_event := ee, data := Some d\<rparr>"



text \<open>
  A scenario that is the same every hour, with every flag array as "no faults, grid
  available" reads: generation \<open>gen\<close> (all of it solar), demand \<open>dem\<close>, price \<open>price\<close>.
\<close>

definition flat_scenario :: "real \<Rightarrow> real \<Rightarrow> real \<Rightarrow> scenario" where
  "flat_scenario gen dem price =
     \<lparr>solar_failure = replicate 24 0, wind_failure = replicate 24 0,
      grid_available = replicate 24 1,
      P_solar = replicate 24 gen, P_wind = replicate 24 0, P_gen = replicate 24 gen,
      P_demand = replicate 24 dem, grid_price = replicate 24 price\<rparr>"

text \<open>
  What one hour adds to the cost in a flat scenario when the battery is idle: the grid
  cost (imports only) and the carbon cost, which has no such guard.
\<close>

definition idle_hour_cost :: "real \<Rightarrow> real \<Rightarrow> real \<Rightarrow> real" where
  "idle_hour_cost gen dem price =
     (if dem - gen > 0 then (dem - gen) * price else 0) + (dem - gen) * 0.487 * 2"

text \<open>
  A generator whose every draw is a constant: the normal deviates \<open>z\<close>, the flags
  \<open>flag\<close>, the demand noise \<open>nz\<close>, the spike factors \<open>f\<close>, the spike hours
  \<open>0, 1, 2, \<dots>\<close>. It accepts the seeds numpy accepts. It serves to run \<open>load_data\<close>
  on given draws.
\<close>

definition constant_draws :: "real \<Rightarrow> int \<Rightarrow> real \<Rightarrow> real \<Rightarrow> unit np_random" where
  "constant_draws z flag nz f =
     \<lparr>rng_seed = (\<lambda>s. if 0 \<le> s \<and> s < 2 ^ 32 then Inr () else Inl ValueError),
      rng_randn = (\<lambda>n g. (replicate n z, g)),
      rng_choice = (\<lambda>xs n p g. (replicate n flag, g)),
      rng_normal = (\<lambda>mu sd n g. (replicate n nz, g)),
      rng_sample = (\<lambda>n k g. ([0..<k], g)),
      rng_uniform = (\<lambda>lo hi n g. (replicate n f, g))\<rparr>"


text \<open>The lists of one algorithm after the three appends of one trial.\<close>

definition appended :: "trial_lists \<Rightarrow> entry \<Rightarrow> trial_lists" where
  "appended r e = (case e of (c, h, s) \<Rightarrow>
     \<lparr>costs = costs r @ [c], histories = histories r @ [h], solutions = solutions r @ [s]\<rparr>)"

section \<open>Properties of energy_cost\<close>

lemma clip_bounds: "lo \<le> hi \<Longrightarrow> lo \<le> clip x lo hi \<and> clip x lo hi \<le> hi"
  by (simp add: clip_def min_def max_def)

lemma configured_temperature [simp]:
  "(configured p m ee d T)\<lparr>temperature := T'\<rparr> = configured p m ee d T'"
  by (simp add: configured_def)

lemma configured_fields [simp]:
  "data (configured p m ee d T) = Some d"
  "hours (configured p m ee d T) = 24"
  "capital_cost (configured p m ee d T) = 500"
  "charge_eff (configured p m ee d T) = 0.95"
  "discharge_eff (configured p m ee d T) = 0.95"
  "SOC_min (configured p m ee d T) = 0.1"
  "SOC_max (configured p m ee d T) = 0.9"
  "temperature (configured p m ee d T) = T"
  "emergency_event (configured p m ee d T) = ee"
  "length (SOC_capacity_decay (configured p m ee d T)) = 24"
  "t < 24 \<Longrightarrow> SOC_capacity_decay (configured p m ee d T) ! t = 1.0 - 0.005 * real t"
  by (simp_all add: configured_def RenewableOptimizer_def)





lemma fmean_last3_same:
  assumes "2 \<le> n"
  shows "fmean (last3 (replicate n (Fin a) @ [Fin a])) = Fin a"
proof -
  have "replicate n (Fin a) @ [Fin a] = replicate (Suc n) (Fin a)"
    by (simp add: replicate_append_same)
  moreover have "last3 (replicate (Suc n) (Fin a)) = replicate 3 (Fin a)"
    using assms unfolding last3_def by (simp del: replicate_Suc add: Suc_diff_le)
  moreover have "fmean (replicate 3 (Fin a)) = Fin a"
    by (simp add: fmean_def numeral_3_eq_3)
  ultimately show ?thesis by simp
qed

lemma idle_step:
  assumes t: "t < 24" and S: "0 < S"
  shows "hour_step S (replicate 24 0) t
           (configured p m (replicate 24 0) (flat_scenario gen dem price) (Fin 25))
           \<lparr>total_cost = Fin c, SOC = Fin 0.5, SOC_history = replicate t (Fin 0.5)\<rparr>
         = Inr (configured p m (replicate 24 0) (flat_scenario gen dem price) (Fin 25),
           \<lparr>total_cost = Fin (c + idle_hour_cost gen dem price), SOC = Fin 0.5,
            SOC_history = replicate (Suc t) (Fin 0.5)\<rparr>)"
proof (cases "3 \<le> t")
  case True
  then have "fmean (last3 (replicate t (Fin (1 / 2)) @ [Fin (1 / 2)])) = Fin (1 / 2)"
    by (simp add: fmean_last3_same)
  then show ?thesis using t S
    by (simp add: hour_step_def flat_scenario_def Let_def clip_def fsub_def idle_hour_cost_def
        replicate_append_same)
next
  case False
  then show ?thesis using t S
    by (simp add: hour_step_def flat_scenario_def Let_def clip_def fsub_def idle_hour_cost_def
        replicate_append_same)
qed

lemma idle_loop:
  assumes S: "0 < S"
  shows "k \<le> 24 \<Longrightarrow>
     hour_loop S (replicate 24 0) [k..<24]
           (configured p m (replicate 24 0) (flat_scenario gen dem price) (Fin 25))
           \<lparr>total_cost = Fin c, SOC = Fin 0.5, SOC_history = replicate k (Fin 0.5)\<rparr>
     = (Inr \<lparr>total_cost = Fin (c + real (24 - k) * idle_hour_cost gen dem price), SOC = Fin 0.5,
            SOC_history = replicate 24 (Fin 0.5)\<rparr>,
        configured p m (replicate 24 0) (flat_scenario gen dem price) (Fin 25))"
proof (induction "24 - k" arbitrary: k c)
  case 0
  then show ?case by simp
next
  case (Suc n)
  then have k: "k < 24" by simp
  have n: "n = 24 - Suc k" using Suc.hyps(2) by simp
  have "real (24 - k) = 1 + real (24 - Suc k)" using k by simp
  then show ?case
    using k idle_step [OF k S] Suc.hyps(1) [OF n, of "c + idle_hour_cost gen dem price"]
    by (simp add: upt_conv_Cons algebra_simps del: replicate_Suc)
qed

lemma idle_energy_cost:
  assumes S: "0 < S"
  shows "energy_cost (configured p m (replicate 24 0) (flat_scenario gen dem price) T0)
           (S # replicate 24 0)
         = (Inr (finish_cost S (replicate 24 0) (flat_scenario gen dem price)
                  (Fin (500 * S + 24 * idle_hour_cost gen dem price))),
            configured p m (replicate 24 0) (flat_scenario gen dem price) (Fin 25))"
  using idle_loop [OF S, of 0 p m gen dem price "500 * S"]
  by (simp add: energy_cost_def)

lemma example_cost:
  "fst (energy_cost (configured 30 50 (replicate 24 0) (flat_scenario 0 80 0.2) (Fin 25))
         (100 # replicate 24 0))
   = Inr (Fin (500 * 100 + 24 * (80 * 0.2) + 24 * (80 * 0.487 * 2) + 8500 + 100 * \<bar>sin 1\<bar>))"
proof -
  have "0 < (100::real)" by simp
  from idle_energy_cost [OF this, of 30 50 0 80 "0.2" "Fin 25"] show ?thesis
    by (simp add: finish_cost_def flat_scenario_def Let_def fsub_def
        idle_hour_cost_def sum_list_replicate)
qed







text \<open>
  Claim C2, as amended. In the example (no generation, demand 80 and price 0.2 every
  hour, no faults, \<open>S = 100\<close>, battery idle) \<open>energy_cost\<close> returns
  \<open>500 * 100 + 24 * (80 * 0.2) + 24 * (80 * 0.487 * 2) + 8500 + 100 * |sin 1|\<close>: the
  degradation, thermal and SOC-stability terms contribute nothing, but the efficiency is
  \<open>0 < 0.85\<close> and its penalty is \<open>(0.85 - 0) * 1e4 = 8500\<close>.
\<close>

theorem energy_cost_example:
  "fst (energy_cost (configured 30 50 (replicate 24 0) (flat_scenario 0 80 0.2) (Fin 25))
         (100 # replicate 24 0))
   = Inr (Fin (500 * 100 + 24 * (80 * 0.2) + 24 * (80 * 0.487 * 2) + 8500 + 100 * \<bar>sin 1\<bar>))"
  by (rule example_cost)

text \<open>The closed form of the claim, without the efficiency penalty, is not what is returned.\<close>

theorem energy_cost_example_counterexample:
  "fst (energy_cost (configured 30 50 (replicate 24 0) (flat_scenario 0 80 0.2) (Fin 25))
         (100 # replicate 24 0))
   \<noteq> Inr (Fin (500 * 100 + 24 * (80 * 0.2) + 24 * (80 * 0.487 * 2) + 100 * \<bar>sin 1\<bar>))"
  using example_cost by simp

lemma hour_step_instance:
  "case hour_step S u t self l of Inl e \<Rightarrow> True
   | Inr (self', l') \<Rightarrow> self' = self\<lparr>temperature := temperature self'\<rparr>"
  by (simp add: hour_step_def Let_def split: option.split)

lemma hour_loop_instance:
  "snd (hour_loop S u ts self l) = self\<lparr>temperature := temperature (snd (hour_loop S u ts self l))\<rparr>"
proof (induction ts arbitrary: self l)
  case Nil
  show ?case by simp
next
  case (Cons t ts)
  show ?case
  proof (cases "hour_step S u t self l")
    case (Inl e)
    then show ?thesis by simp
  next
    case (Inr r)
    obtain self' l' where r: "r = (self', l')" by (cases r)
    from hour_step_instance [where S = S and u = u and t = t and self = self and l = l] Inr r
    have s: "self' = self\<lparr>temperature := temperature self'\<rparr>" by simp
    have "snd (hour_loop S u ts self' l')
        = self'\<lparr>temperature := temperature (snd (hour_loop S u ts self' l'))\<rparr>"
      by (rule Cons.IH)
    also have "\<dots> = self\<lparr>temperature := temperature (snd (hour_loop S u ts self' l'))\<rparr>"
      by (subst s) simp
    finally show ?thesis using Inr r by simp
  qed
qed

lemma energy_cost_instance:
  "snd (energy_cost self solution) = self\<lparr>temperature := temperature (snd (energy_cost self solution))\<rparr>"
proof (cases solution)
  case Nil
  then show ?thesis by (simp add: energy_cost_def)
next
  case (Cons S u)
  let ?r = "hour_loop S u [0..<hours self] (self\<lparr>temperature := Fin 25\<rparr>)
      \<lparr>total_cost = Fin (capital_cost self * S), SOC = Fin 0.5, SOC_history = []\<rparr>"
  have e: "snd (energy_cost self solution) = snd ?r"
    using Cons by (simp add: energy_cost_def split: prod.split sum.split option.split)
  have "snd ?r = self\<lparr>temperature := Fin 25\<rparr>\<lparr>temperature := temperature (snd ?r)\<rparr>"
    by (rule hour_loop_instance)
  then show ?thesis unfolding e by simp
qed

lemma energy_cost_temperature:
  "fst (energy_cost (self\<lparr>temperature := T\<rparr>) solution) = fst (energy_cost self solution)"
  by (cases solution) (simp_all add: energy_cost_def)

text \<open>
  Claim C4. \<open>energy_cost\<close> is idempotent: a second call on the instance the first call
  left behind, with the same solution, gives the same result (the same cost, or the same
  exception); and whatever value \<open>temperature\<close> holds on the instance before a call
  does not alter the result, because the call resets it to 25 before the first hour.
\<close>

theorem energy_cost_idempotent:
  "fst (energy_cost (snd (energy_cost self solution)) solution) = fst (energy_cost self solution)
   \<and> fst (energy_cost (self\<lparr>temperature := T\<rparr>) solution) = fst (energy_cost self solution)"
proof
  show "fst (energy_cost (snd (energy_cost self solution)) solution) = fst (energy_cost self solution)"
    by (subst energy_cost_instance) (rule energy_cost_temperature)
  show "fst (energy_cost (self\<lparr>temperature := T\<rparr>) solution) = fst (energy_cost self solution)"
    by (rule energy_cost_temperature)
qed

section \<open>Properties of load_data\<close>

lemma bcast_same [simp]: "length xs = length ys \<Longrightarrow> bcast f xs ys = Inr (map2 f xs ys)"
  by (simp add: bcast_def)

lemma ebind_Inr [simp]: "ebind (Inr x) f = f x"
  by (simp add: ebind_def)

lemma ebind_Inl [simp]: "ebind (Inl e) f = Inl e"
  by (simp add: ebind_def)

lemma fold_update_length [simp]:
  "length (fold (\<lambda>(i, v) b. b[i := v]) ivs a) = length a"
  by (induction ivs arbitrary: a) (auto split: prod.splits)


lemma load_data_result:
  assumes h: "hours self = 24"
    and s: "rng_seed rng seed = Inr g0"
    and d1: "rng_randn rng 24 g0 = (z, g1)" "length z = 24"
    and d2: "rng_choice rng [0, 1] 24 [0.9, 0.1] g1 = (sf, g2)" "length sf = 24"
    and d3: "rng_choice rng [0, 1] 24 [0.85, 0.15] g2 = (wfl, g3)" "length wfl = 24"
    and d4: "rng_choice rng [0, 1] 24 [0.2, 0.8] g3 = (ga, g4)" "length ga = 24"
    and d5: "rng_choice rng [0, 1] 24 [0.9, 0.1] g4 = (ee, g5)" "length ee = 24"
    and d6: "rng_normal rng 1 0.15 24 g5 = (nz, g6)" "length nz = 24"
    and d7: "rng_sample rng 24 4 g6 = (sh, g7)" "length sh = 4" "list_all (\<lambda>i. i < 24) sh"
    and d8: "rng_uniform rng 3 5 4 g7 = (sp, g8)" "length sp = 4"
  shows "\<exists>self' d. load_data rng self seed g = Inr (self', g8)
      \<and> emergency_event self' = ee \<and> data self' = Some d
      \<and> solar_failure d = sf \<and> wind_failure d = wfl \<and> grid_available d = ga
      \<and> length (P_solar d) = 24 \<and> length (P_wind d) = 24 \<and> length (P_gen d) = 24
      \<and> length (P_demand d) = 24 \<and> length (grid_price d) = 24
      \<and> (\<forall>t<24. P_solar d ! t = max ((50 * sin (pi * real_of_int (int t - 6) / 12) + 1)
                 * (1 + data_variation self * z ! t) * real_of_int (sf ! t)) 0)
      \<and> (\<forall>t<24. P_wind d ! t = max ((30 * cos (pi * real_of_int (int t - 12) / 6) + 5)
                 * (1 + data_variation self * z ! t) * real_of_int (wfl ! t)) 0)
      \<and> (\<forall>t<24. P_gen d ! t = P_solar d ! t + P_wind d ! t)
      \<and> (\<forall>t<24. P_demand d ! t = (80 + 30 * sin (pi * real_of_int (int t + 6) / 12))
                 * (1 + data_variation self * z ! t) * nz ! t)"
  using h s d1 d2 d3 d4 d5 d6 d7 d8
  by (simp add: load_data_def Let_def fancy_imul_def)




lemma load_data_arrays:
  assumes "hours self2 = hours self1" "data_variation self2 = data_variation self1"
  shows "map_sum id (\<lambda>(s, g). (emergency_event s, data s, g)) (load_data rng self1 seed g1)
       = map_sum id (\<lambda>(s, g). (emergency_event s, data s, g)) (load_data rng self2 seed g2)"
  using assms
  by (simp add: load_data_def Let_def ebind_def split: sum.splits prod.splits)



lemma constant_draws_simps [simp]:
  "rng_seed (constant_draws z flag nz f) 0 = Inr ()"
  "rng_randn (constant_draws z flag nz f) n g = (replicate n z, g)"
  "rng_choice (constant_draws z flag nz f) xs n p g = (replicate n flag, g)"
  "rng_normal (constant_draws z flag nz f) mu sd n g = (replicate n nz, g)"
  "rng_sample (constant_draws z flag nz f) n k g = ([0..<k], g)"
  "rng_uniform (constant_draws z flag nz f) lo hi n g = (replicate n f, g)"
  by (simp_all add: constant_draws_def)

lemma constant_draws_result:
  "\<exists>self' d. load_data (constant_draws z flag nz f) (RenewableOptimizer 24 30 50) 0 () = Inr (self', ())
      \<and> emergency_event self' = replicate 24 flag \<and> data self' = Some d
      \<and> solar_failure d = replicate 24 flag \<and> wind_failure d = replicate 24 flag
      \<and> grid_available d = replicate 24 flag
      \<and> length (P_solar d) = 24 \<and> length (P_wind d) = 24 \<and> length (P_gen d) = 24
      \<and> length (P_demand d) = 24 \<and> length (grid_price d) = 24
      \<and> (\<forall>t<24. P_solar d ! t = max ((50 * sin (pi * real_of_int (int t - 6) / 12) + 1)
                 * (1 + data_variation (RenewableOptimizer 24 30 50) * replicate 24 z ! t)
                 * real_of_int (replicate 24 flag ! t)) 0)
      \<and> (\<forall>t<24. P_wind d ! t = max ((30 * cos (pi * real_of_int (int t - 12) / 6) + 5)
                 * (1 + data_variation (RenewableOptimizer 24 30 50) * replicate 24 z ! t)
                 * real_of_int (replicate 24 flag ! t)) 0)
      \<and> (\<forall>t<24. P_gen d ! t = P_solar d ! t + P_wind d ! t)
      \<and> (\<forall>t<24. P_demand d ! t = (80 + 30 * sin (pi * real_of_int (int t + 6) / 12))
                 * (1 + data_variation (RenewableOptimizer 24 30 50) * replicate 24 z ! t)
                 * replicate 24 nz ! t)"
  by (rule load_data_result [where ?g0.0 = "()" and ?g1.0 = "()" and ?g2.0 = "()" and ?g3.0 = "()"
        and ?g4.0 = "()" and ?g5.0 = "()" and ?g6.0 = "()" and ?g7.0 = "()" and sh = "[0..<4]"
        and sp = "replicate 4 f"])
     (simp_all add: RenewableOptimizer_def list_all_iff)

text \<open>
  Claim C3 is not what the code does. The generation is multiplied by the failure flag
  itself, so it is zero where the flag is 0 and the (clipped) noisy base curve where the
  flag is 1. With no noise, hour 12 has solar output 51 and wind output 35 when both
  failure flags are set, and no output at all when neither is.
\<close>

theorem load_data_outage_inverted:
  "map_sum id (\<lambda>(s, g). map_option (\<lambda>d. (solar_failure d ! 12, P_solar d ! 12,
        wind_failure d ! 12, P_wind d ! 12)) (data s))
     (load_data (constant_draws 0 1 1 3) (RenewableOptimizer 24 30 50) 0 ())
   = Inr (Some (1, 51, 1, 35))
   \<and> map_sum id (\<lambda>(s, g). map_option (\<lambda>d. (solar_failure d ! 12, P_solar d ! 12,
        wind_failure d ! 12, P_wind d ! 12)) (data s))
     (load_data (constant_draws 0 0 1 3) (RenewableOptimizer 24 30 50) 0 ())
   = Inr (Some (0, 0, 0, 0))"
proof
  from constant_draws_result [of 0 1 1 3]
  obtain self' d where "load_data (constant_draws 0 1 1 3) (RenewableOptimizer 24 30 50) 0 () = Inr (self', ())"
    "data self' = Some d" "solar_failure d ! 12 = 1" "wind_failure d ! 12 = 1"
    "P_solar d ! 12 = 51" "P_wind d ! 12 = 35"
    by (auto simp: RenewableOptimizer_def)
  then show "map_sum id (\<lambda>(s, g). map_option (\<lambda>d. (solar_failure d ! 12, P_solar d ! 12,
        wind_failure d ! 12, P_wind d ! 12)) (data s))
     (load_data (constant_draws 0 1 1 3) (RenewableOptimizer 24 30 50) 0 ())
   = Inr (Some (1, 51, 1, 35))" by simp
  from constant_draws_result [of 0 0 1 3]
  obtain self' d where "load_data (constant_draws 0 0 1 3) (RenewableOptimizer 24 30 50) 0 () = Inr (self', ())"
    "data self' = Some d" "solar_failure d ! 12 = 0" "wind_failure d ! 12 = 0"
    "P_solar d ! 12 = 0" "P_wind d ! 12 = 0"
    by (auto simp: RenewableOptimizer_def)
  then show "map_sum id (\<lambda>(s, g). map_option (\<lambda>d. (solar_failure d ! 12, P_solar d ! 12,
        wind_failure d ! 12, P_wind d ! 12)) (data s))
     (load_data (constant_draws 0 0 1 3) (RenewableOptimizer 24 30 50) 0 ())
   = Inr (Some (0, 0, 0, 0))" by simp
qed



lemma load_data_again:
  "load_data rng self seed g1 = Inr (self', g') \<Longrightarrow> load_data rng self' seed g2 = Inr (self', g')"
  by (auto simp: load_data_def Let_def ebind_def split: sum.splits prod.splits)

text \<open>
  Claim C5. The scenario \<open>load_data\<close> produces (the emergency events and the seven
  arrays of the scenario record, so all eight hourly arrays) and the generator state it
  leaves depend on the seed only: not on the generator state before the call, and of the
  instance only on \<open>hours\<close> and \<open>data_variation\<close>. Calling it again with the same seed
  on the instance it returned, from any generator state, returns the same instance.
\<close>

theorem load_data_deterministic:
  assumes "hours self2 = hours self1" "data_variation self2 = data_variation self1"
  shows "map_sum id (\<lambda>(s, g). (emergency_event s, data s, g)) (load_data rng self1 seed g1)
       = map_sum id (\<lambda>(s, g). (emergency_event s, data s, g)) (load_data rng self2 seed g2)
     \<and> (\<forall>self' g'. load_data rng self1 seed g1 = Inr (self', g')
           \<longrightarrow> load_data rng self' seed g2 = Inr (self', g'))"
proof (intro conjI allI impI)
  show "map_sum id (\<lambda>(s, g). (emergency_event s, data s, g)) (load_data rng self1 seed g1)
       = map_sum id (\<lambda>(s, g). (emergency_event s, data s, g)) (load_data rng self2 seed g2)"
    by (rule load_data_arrays [OF assms])
next
  fix self' g'
  assume "load_data rng self1 seed g1 = Inr (self', g')"
  then show "load_data rng self' seed g2 = Inr (self', g')"
    by (rule load_data_again)
qed

theorem load_data_deterministic_witness:
  "hours (RenewableOptimizer 24 20 10) = hours (RenewableOptimizer 24 30 50)
   \<and> data_variation (RenewableOptimizer 24 20 10) = data_variation (RenewableOptimizer 24 30 50)
   \<and> map_sum id (\<lambda>(s, g). (emergency_event s, data s, g))
        (load_data (constant_draws 0 1 1 3) (RenewableOptimizer 24 30 50) 7 ())
     = map_sum id (\<lambda>(s, g). (emergency_event s, data s, g))
        (load_data (constant_draws 0 1 1 3) (RenewableOptimizer 24 20 10) 7 ())"
proof -
  have h1: "hours (RenewableOptimizer 24 20 10) = hours (RenewableOptimizer 24 30 50)"
    and h2: "data_variation (RenewableOptimizer 24 20 10) = data_variation (RenewableOptimizer 24 30 50)"
    by (simp_all add: RenewableOptimizer_def)
  from load_data_deterministic [OF h1 h2, of "constant_draws 0 1 1 3" 7 "()" "()"]
  have "map_sum id (\<lambda>(s, g). (emergency_event s, data s, g))
        (load_data (constant_draws 0 1 1 3) (RenewableOptimizer 24 30 50) 7 ())
     = map_sum id (\<lambda>(s, g). (emergency_event s, data s, g))
        (load_data (constant_draws 0 1 1 3) (RenewableOptimizer 24 20 10) 7 ())"
    by (rule conjunct1)
  with h1 h2 show ?thesis by (intro conjI)
qed

section \<open>Properties of run_multiple_trials\<close>

lemma run_algorithms_Cons:
  "run_algorithms ms ((name, mn) # rest) w =
     ((name, trial_entry (fst (call_method ms mn w)))
        # fst (run_algorithms ms rest (snd (call_method ms mn w))),
      snd (run_algorithms ms rest (snd (call_method ms mn w))))"
  by (simp add: Let_def case_prod_beta)

lemma run_algorithms_names:
  "map fst (fst (run_algorithms ms algs w)) = map fst algs"
proof (induction algs arbitrary: w)
  case Nil
  show ?case by simp
next
  case (Cons x algs)
  obtain name mn where x: "x = (name, mn)" by (cases x)
  show ?case unfolding x run_algorithms_Cons using Cons.IH by simp
qed

lemma append_results_map_of:
  "distinct (map fst tr) \<Longrightarrow> fst ` set tr \<subseteq> dom res \<Longrightarrow>
     \<exists>res'. append_results tr res = Inr res'
       \<and> (\<forall>name. res' name = (case map_of tr name of None \<Rightarrow> res name
                                 | Some e \<Rightarrow> map_option (\<lambda>r. appended r e) (res name)))"
proof (induction tr arbitrary: res)
  case Nil
  show ?case by simp
next
  case (Cons x tr)
  obtain name c h s where x: "x = (name, (c, h, s))" by (cases x) auto
  from Cons.prems x obtain r where r: "res name = Some r" by auto
  let ?res1 = "res(name \<mapsto> \<lparr>costs = costs r @ [c], histories = histories r @ [h],
      solutions = solutions r @ [s]\<rparr>)"
  have d: "distinct (map fst tr)" and n: "name \<notin> fst ` set tr" using Cons.prems x by auto
  have sub: "fst ` set tr \<subseteq> dom ?res1" using Cons.prems by auto
  from Cons.IH [OF d sub] obtain res' where
    a: "append_results tr ?res1 = Inr res'"
    and v: "\<forall>k. res' k = (case map_of tr k of None \<Rightarrow> ?res1 k
                                 | Some e \<Rightarrow> map_option (\<lambda>r. appended r e) (?res1 k))"
    by blast
  have "append_results (x # tr) res = Inr res'" using a x r by simp
  moreover have "\<forall>k. res' k = (case map_of (x # tr) k of None \<Rightarrow> res k
                                 | Some e \<Rightarrow> map_option (\<lambda>r. appended r e) (res k))"
  proof
    fix k
    show "res' k = (case map_of (x # tr) k of None \<Rightarrow> res k
                                 | Some e \<Rightarrow> map_option (\<lambda>r. appended r e) (res k))"
    proof (cases "k = name")
      case True
      with n have "map_of tr k = None" by (simp add: map_of_eq_None_iff)
      with v True x r show ?thesis by (simp add: appended_def)
    next
      case False
      with v x show ?thesis by (simp split: option.splits)
    qed
  qed
  ultimately show ?case by blast
qed

lemma failing_entry:
  assumes fails: "\<And>w. fst (call_method ms m w) = Raised"
  shows "(a, m) \<in> set algs \<Longrightarrow> (a, (PosInf, [], None)) \<in> set (fst (run_algorithms ms algs w))"
proof (induction algs arbitrary: w)
  case Nil
  then show ?case by simp
next
  case (Cons x algs)
  obtain name mn where x: "x = (name, mn)" by (cases x)
  show ?case
  proof (cases "x = (a, m)")
    case True
    then show ?thesis by (simp add: run_algorithms_Cons fails del: run_algorithms.simps)
  next
    case False
    with Cons.prems have "(a, m) \<in> set algs" by simp
    from Cons.IH [OF this] x show ?thesis
      by (simp add: run_algorithms_Cons del: run_algorithms.simps)
  qed
qed

lemma run_algorithms_agree:
  assumes same: "\<And>k. k \<noteq> m \<Longrightarrow> ms2 k = ms k"
    and eff: "\<And>w. snd (call_method ms2 m w) = snd (call_method ms m w)"
  shows "snd (run_algorithms ms2 algs w) = snd (run_algorithms ms algs w)
     \<and> (\<forall>b. (\<forall>mb. (b, mb) \<in> set algs \<longrightarrow> mb \<noteq> m) \<longrightarrow>
           map_of (fst (run_algorithms ms2 algs w)) b = map_of (fst (run_algorithms ms algs w)) b)"
proof (induction algs arbitrary: w)
  case Nil
  show ?case by simp
next
  case (Cons x algs)
  obtain name mn where x: "x = (name, mn)" by (cases x)
  have c: "mn \<noteq> m \<Longrightarrow> call_method ms2 mn w = call_method ms mn w"
    using same by (simp add: call_method_def)
  have w: "snd (call_method ms2 mn w) = snd (call_method ms mn w)"
    using eff [of w] c by (cases "mn = m") simp_all
  from Cons.IH [of "snd (call_method ms mn w)"] x w c show ?case
    by (auto simp: run_algorithms_Cons simp del: run_algorithms.simps)
qed

lemma run_trials_Cons:
  "load_data rng oc (int t) g = Inr w \<Longrightarrow>
   append_results (fst (run_algorithms ms algs w)) res = Inr res' \<Longrightarrow>
   run_trials rng ms oc algs (t # ts) g res
     = run_trials rng ms oc algs ts (snd (snd (run_algorithms ms algs w))) res'"
  by (simp add: case_prod_beta)

lemma trial_step:
  assumes dist: "distinct (map fst algs)" and dom: "dom res = fst ` set algs"
  shows "\<exists>res'. append_results (fst (run_algorithms ms algs w)) res = Inr res'
     \<and> dom res' = fst ` set algs
     \<and> (\<forall>name. res' name = (case map_of (fst (run_algorithms ms algs w)) name of
            None \<Rightarrow> res name | Some e \<Rightarrow> map_option (\<lambda>r. appended r e) (res name)))"
proof -
  let ?tr = "fst (run_algorithms ms algs w)"
  have d: "distinct (map fst ?tr)" using dist by (simp add: run_algorithms_names)
  have "fst ` set ?tr = set (map fst ?tr)" by simp
  also have "\<dots> = fst ` set algs" by (simp add: run_algorithms_names)
  finally have sub: "fst ` set ?tr \<subseteq> dom res" using dom by simp
  from append_results_map_of [OF d sub] obtain res' where
    a: "append_results ?tr res = Inr res'"
    and v: "\<forall>name. res' name = (case map_of ?tr name of
            None \<Rightarrow> res name | Some e \<Rightarrow> map_option (\<lambda>r. appended r e) (res name))"
    by blast
  have "(res' k = None) = (res k = None)" for k
    by (simp add: v [rule_format, of k] split: option.splits)
  then have "dom res' = dom res" unfolding dom_def by simp
  then have "dom res' = fst ` set algs" using dom by simp
  with a v show ?thesis by (intro exI [of _ res'] conjI)
qed

lemma run_trials_failing:
  assumes dist: "distinct (map fst algs)" and reg: "(a, m) \<in> set algs"
    and fails: "\<And>w. fst (call_method ms m w) = Raised"
    and load: "\<And>t g. t \<in> set ts \<Longrightarrow> \<exists>w. load_data rng oc (int t) g = Inr w"
  shows "dom res = fst ` set algs \<Longrightarrow>
     \<exists>resF gF. run_trials rng ms oc algs ts g res = Inr (resF, gF)
       \<and> resF a = map_option (\<lambda>r. \<lparr>costs = costs r @ replicate (length ts) PosInf,
             histories = histories r @ replicate (length ts) [],
             solutions = solutions r @ replicate (length ts) None\<rparr>) (res a)"
  using load
proof (induction ts arbitrary: g res)
  case Nil
  show ?case by (cases "res a") simp_all
next
  case (Cons t ts)
  from Cons.prems(2) [of t g] obtain w where w: "load_data rng oc (int t) g = Inr w" by auto
  from trial_step [OF dist Cons.prems(1), of ms w] obtain res1 where
    a: "append_results (fst (run_algorithms ms algs w)) res = Inr res1"
    and d1: "dom res1 = fst ` set algs"
    and v: "\<forall>name. res1 name = (case map_of (fst (run_algorithms ms algs w)) name of
            None \<Rightarrow> res name | Some e \<Rightarrow> map_option (\<lambda>r. appended r e) (res name))"
    by blast
  have "distinct (map fst (fst (run_algorithms ms algs w)))"
    using dist by (simp add: run_algorithms_names)
  with failing_entry [OF fails reg, of w]
  have "map_of (fst (run_algorithms ms algs w)) a = Some (PosInf, [], None)"
    by (rule_tac map_of_is_SomeI)
  with v have r1: "res1 a = map_option (\<lambda>r. appended r (PosInf, [], None)) (res a)" by simp
  have "\<exists>resF gF. run_trials rng ms oc algs ts (snd (snd (run_algorithms ms algs w))) res1 = Inr (resF, gF)
       \<and> resF a = map_option (\<lambda>r. \<lparr>costs = costs r @ replicate (length ts) PosInf,
             histories = histories r @ replicate (length ts) [],
             solutions = solutions r @ replicate (length ts) None\<rparr>) (res1 a)"
    using d1 Cons.prems(2) by (intro Cons.IH) simp_all
  then obtain resF gF where
    f: "run_trials rng ms oc algs ts (snd (snd (run_algorithms ms algs w))) res1 = Inr (resF, gF)"
    and fa: "resF a = map_option (\<lambda>r. \<lparr>costs = costs r @ replicate (length ts) PosInf,
             histories = histories r @ replicate (length ts) [],
             solutions = solutions r @ replicate (length ts) None\<rparr>) (res1 a)"
    by blast
  have "run_trials rng ms oc algs (t # ts) g res = Inr (resF, gF)"
    using run_trials_Cons [OF w a] f by simp
  moreover have "resF a = map_option (\<lambda>r. \<lparr>costs = costs r @ replicate (length (t # ts)) PosInf,
             histories = histories r @ replicate (length (t # ts)) [],
             solutions = solutions r @ replicate (length (t # ts)) None\<rparr>) (res a)"
    unfolding fa r1 by (cases "res a") (simp_all add: appended_def)
  ultimately show ?case by blast
qed

lemma run_trials_agree:
  assumes dist: "distinct (map fst algs)"
    and same: "\<And>k. k \<noteq> m \<Longrightarrow> ms2 k = ms k"
    and eff: "\<And>w. snd (call_method ms2 m w) = snd (call_method ms m w)"
  shows "dom res = fst ` set algs \<Longrightarrow> dom res2 = fst ` set algs \<Longrightarrow>
     \<forall>b. (\<forall>mb. (b, mb) \<in> set algs \<longrightarrow> mb \<noteq> m) \<longrightarrow> res2 b = res b \<Longrightarrow>
     run_trials rng ms oc algs ts g res = Inr (resF, gF) \<Longrightarrow>
     \<exists>resF2. run_trials rng ms2 oc algs ts g res2 = Inr (resF2, gF)
       \<and> (\<forall>b. (\<forall>mb. (b, mb) \<in> set algs \<longrightarrow> mb \<noteq> m) \<longrightarrow> resF2 b = resF b)"
proof (induction ts arbitrary: g res res2)
  case Nil
  then show ?case by simp
next
  case (Cons t ts)
  from Cons.prems(4) obtain w where w: "load_data rng oc (int t) g = Inr w"
    by (cases "load_data rng oc (int t) g") (simp_all add: ebind_def)
  from trial_step [OF dist Cons.prems(1), of ms w] obtain res1 where
    a1: "append_results (fst (run_algorithms ms algs w)) res = Inr res1"
    and d1: "dom res1 = fst ` set algs"
    and v1: "\<forall>name. res1 name = (case map_of (fst (run_algorithms ms algs w)) name of
            None \<Rightarrow> res name | Some e \<Rightarrow> map_option (\<lambda>r. appended r e) (res name))"
    by blast
  from trial_step [OF dist Cons.prems(2), of ms2 w] obtain res1' where
    a2: "append_results (fst (run_algorithms ms2 algs w)) res2 = Inr res1'"
    and d2: "dom res1' = fst ` set algs"
    and v2: "\<forall>name. res1' name = (case map_of (fst (run_algorithms ms2 algs w)) name of
            None \<Rightarrow> res2 name | Some e \<Rightarrow> map_option (\<lambda>r. appended r e) (res2 name))"
    by blast
  from run_algorithms_agree [of m ms2 ms algs w, OF same eff]
  have sw: "snd (run_algorithms ms2 algs w) = snd (run_algorithms ms algs w)"
    and mo: "\<forall>b. (\<forall>mb. (b, mb) \<in> set algs \<longrightarrow> mb \<noteq> m) \<longrightarrow>
           map_of (fst (run_algorithms ms2 algs w)) b = map_of (fst (run_algorithms ms algs w)) b"
    by simp_all
  have inv: "\<forall>b. (\<forall>mb. (b, mb) \<in> set algs \<longrightarrow> mb \<noteq> m) \<longrightarrow> res1' b = res1 b"
  proof (intro allI impI)
    fix b assume u: "\<forall>mb. (b, mb) \<in> set algs \<longrightarrow> mb \<noteq> m"
    with mo have e1: "map_of (fst (run_algorithms ms2 algs w)) b = map_of (fst (run_algorithms ms algs w)) b"
      by blast
    from Cons.prems(3) u have e2: "res2 b = res b" by blast
    show "res1' b = res1 b"
      unfolding v1 [rule_format, of b] v2 [rule_format, of b] e1 e2 by (rule refl)
  qed
  have r1: "run_trials rng ms oc algs ts (snd (snd (run_algorithms ms algs w))) res1 = Inr (resF, gF)"
    using run_trials_Cons [OF w a1] Cons.prems(4) by simp
  from Cons.IH [OF d1 d2 inv r1] obtain resF2 where
    "run_trials rng ms2 oc algs ts (snd (snd (run_algorithms ms algs w))) res1' = Inr (resF2, gF)"
    and "\<forall>b. (\<forall>mb. (b, mb) \<in> set algs \<longrightarrow> mb \<noteq> m) \<longrightarrow> resF2 b = resF b"
    by blast
  then show ?case using run_trials_Cons [OF w a2] sw by auto
qed

lemma initial_results:
  "map_of (map (\<lambda>(name, method_name). (name, e)) algs) name
     = (if name \<in> fst ` set algs then Some e else None)"
  by (induction algs) auto

lemma registered_once:
  "distinct (map fst algs) \<Longrightarrow> (b, mb) \<in> set algs \<Longrightarrow> (b, mb') \<in> set algs \<Longrightarrow> mb' = mb"
  by (meson eq_key_imp_eq_value)

text \<open>
  Claim C8. Let the algorithms be registered under distinct names, let the algorithm
  \<open>a\<close> be registered with a method that raises on every invocation, and let scenario
  generation succeed for the seeds \<open>0\<close> to \<open>n - 1\<close>. Then \<open>run_multiple_trials\<close> returns,
  and holds for \<open>a\<close> exactly \<open>n\<close> entries, each with cost plus infinity, an empty history
  and no solution. The entries of every other algorithm are not affected by the failure:
  they are the same as in a run where the method of \<open>a\<close> does not fail but leaves the
  instance and the generator in the same state.
\<close>

theorem run_multiple_trials_isolation:
  assumes dist: "distinct (map fst algorithms)" and reg: "(a, m) \<in> set algorithms"
    and fails: "\<forall>w. fst (call_method ms m w) = Raised"
    and load: "\<forall>t<n. \<forall>g. \<exists>w. load_data rng optimizer_class (int t) g = Inr w"
  shows "\<exists>res. run_multiple_trials rng ms optimizer_class algorithms n g = Inr res
     \<and> res a = Some \<lparr>costs = replicate n PosInf, histories = replicate n [],
                      solutions = replicate n None\<rparr>
     \<and> (\<forall>ms2. (\<forall>k. k \<noteq> m \<longrightarrow> ms2 k = ms k)
              \<and> (\<forall>w. snd (call_method ms2 m w) = snd (call_method ms m w)) \<longrightarrow>
           (\<exists>res2. run_multiple_trials rng ms2 optimizer_class algorithms n g = Inr res2
              \<and> (\<forall>b mb. (b, mb) \<in> set algorithms \<and> mb \<noteq> m \<longrightarrow> res2 b = res b)))"
proof -
  let ?init = "map_of (map (\<lambda>(name, method_name).
      (name, \<lparr>costs = [], histories = [], solutions = []\<rparr>)) algorithms)"
  have dom: "dom ?init = fst ` set algorithms"
    by (auto simp: initial_results dom_def)
  have ia: "?init a = Some \<lparr>costs = [], histories = [], solutions = []\<rparr>"
    using reg by (force simp: initial_results)
  have f: "\<And>w. fst (call_method ms m w) = Raised" using fails by blast
  have l: "\<And>t g. t \<in> set [0..<n] \<Longrightarrow> \<exists>w. load_data rng optimizer_class (int t) g = Inr w"
    using load by simp
  from run_trials_failing [OF dist reg f l dom, where g = g] obtain resF gF where
    r: "run_trials rng ms optimizer_class algorithms [0..<n] g ?init = Inr (resF, gF)"
    and ra: "resF a = map_option (\<lambda>r. \<lparr>costs = costs r @ replicate (length [0..<n]) PosInf,
             histories = histories r @ replicate (length [0..<n]) [],
             solutions = solutions r @ replicate (length [0..<n]) None\<rparr>) (?init a)"
    by blast
  have run: "run_multiple_trials rng ms optimizer_class algorithms n g = Inr resF"
    by (simp add: run_multiple_trials_def r)
  have fa: "resF a = Some \<lparr>costs = replicate n PosInf, histories = replicate n [],
                      solutions = replicate n None\<rparr>"
    unfolding ra ia by simp
  have others: "\<exists>res2. run_multiple_trials rng ms2 optimizer_class algorithms n g = Inr res2
              \<and> (\<forall>b mb. (b, mb) \<in> set algorithms \<and> mb \<noteq> m \<longrightarrow> res2 b = resF b)"
    if same: "\<forall>k. k \<noteq> m \<longrightarrow> ms2 k = ms k"
      and eff: "\<forall>w. snd (call_method ms2 m w) = snd (call_method ms m w)" for ms2
  proof -
    have s: "\<And>k. k \<noteq> m \<Longrightarrow> ms2 k = ms k" using same by blast
    have e: "\<And>w. snd (call_method ms2 m w) = snd (call_method ms m w)" using eff by blast
    have i: "\<forall>b. (\<forall>mb. (b, mb) \<in> set algorithms \<longrightarrow> mb \<noteq> m) \<longrightarrow> ?init b = ?init b" by simp
    from run_trials_agree [OF dist s e dom dom i r] obtain resF2 where
      r2: "run_trials rng ms2 optimizer_class algorithms [0..<n] g ?init = Inr (resF2, gF)"
      and agree: "\<forall>b. (\<forall>mb. (b, mb) \<in> set algorithms \<longrightarrow> mb \<noteq> m) \<longrightarrow> resF2 b = resF b"
      by blast
    have "run_multiple_trials rng ms2 optimizer_class algorithms n g = Inr resF2"
      by (simp add: run_multiple_trials_def r2)
    moreover have "\<forall>b mb. (b, mb) \<in> set algorithms \<and> mb \<noteq> m \<longrightarrow> resF2 b = resF b"
    proof (intro allI impI)
      fix b mb assume b: "(b, mb) \<in> set algorithms \<and> mb \<noteq> m"
      then have "\<forall>mb'. (b, mb') \<in> set algorithms \<longrightarrow> mb' \<noteq> m"
        using registered_once [OF dist] by blast
      with agree show "resF2 b = resF b" by blast
    qed
    ultimately show ?thesis by blast
  qed
  show ?thesis
  proof (rule exI [of _ resF], intro conjI)
    show "run_multiple_trials rng ms optimizer_class algorithms n g = Inr resF" by (rule run)
    show "resF a = Some \<lparr>costs = replicate n PosInf, histories = replicate n [],
                      solutions = replicate n None\<rparr>" by (rule fa)
    show "\<forall>ms2. (\<forall>k. k \<noteq> m \<longrightarrow> ms2 k = ms k)
              \<and> (\<forall>w. snd (call_method ms2 m w) = snd (call_method ms m w)) \<longrightarrow>
           (\<exists>res2. run_multiple_trials rng ms2 optimizer_class algorithms n g = Inr res2
              \<and> (\<forall>b mb. (b, mb) \<in> set algorithms \<and> mb \<noteq> m \<longrightarrow> res2 b = resF b))"
      using others by blast
  qed
qed

lemma constant_draws_loads:
  assumes "0 \<le> s" "s < 2 ^ 32"
  shows "\<exists>w. load_data (constant_draws z flag nz f) (RenewableOptimizer 24 30 50) s g = Inr w"
proof -
  have seed: "rng_seed (constant_draws z flag nz f) s = Inr ()"
    using assms by (simp add: constant_draws_def)
  have "\<exists>self' d. load_data (constant_draws z flag nz f) (RenewableOptimizer 24 30 50) s g = Inr (self', ())
      \<and> emergency_event self' = replicate 24 flag \<and> data self' = Some d
      \<and> solar_failure d = replicate 24 flag \<and> wind_failure d = replicate 24 flag
      \<and> grid_available d = replicate 24 flag
      \<and> length (P_solar d) = 24 \<and> length (P_wind d) = 24 \<and> length (P_gen d) = 24
      \<and> length (P_demand d) = 24 \<and> length (grid_price d) = 24
      \<and> (\<forall>t<24. P_solar d ! t = max ((50 * sin (pi * real_of_int (int t - 6) / 12) + 1)
                 * (1 + data_variation (RenewableOptimizer 24 30 50) * replicate 24 z ! t)
                 * real_of_int (replicate 24 flag ! t)) 0)
      \<and> (\<forall>t<24. P_wind d ! t = max ((30 * cos (pi * real_of_int (int t - 12) / 6) + 5)
                 * (1 + data_variation (RenewableOptimizer 24 30 50) * replicate 24 z ! t)
                 * real_of_int (replicate 24 flag ! t)) 0)
      \<and> (\<forall>t<24. P_gen d ! t = P_solar d ! t + P_wind d ! t)
      \<and> (\<forall>t<24. P_demand d ! t = (80 + 30 * sin (pi * real_of_int (int t + 6) / 12))
                 * (1 + data_variation (RenewableOptimizer 24 30 50) * replicate 24 z ! t)
                 * replicate 24 nz ! t)"
    by (rule load_data_result [where ?g0.0 = "()" and ?g1.0 = "()" and ?g2.0 = "()" and ?g3.0 = "()"
          and ?g4.0 = "()" and ?g5.0 = "()" and ?g6.0 = "()" and ?g7.0 = "()" and sh = "[0..<4]"
          and sp = "replicate 4 f"])
       (simp_all add: RenewableOptimizer_def list_all_iff seed)
  then show ?thesis by blast
qed

theorem run_multiple_trials_isolation_witness:
  "distinct (map fst [(''GWO'', ''run_gwo''), (''BAD'', ''run_bad'')])
   \<and> (''BAD'', ''run_bad'') \<in> set [(''GWO'', ''run_gwo''), (''BAD'', ''run_bad'')]
   \<and> (\<exists>res. run_multiple_trials (constant_draws 0 1 1 3)
          [''run_gwo'' \<mapsto> (\<lambda>w. (Returned [1] [Fin 2], w))] (RenewableOptimizer 24 30 50)
          [(''GWO'', ''run_gwo''), (''BAD'', ''run_bad'')] 2 () = Inr res
        \<and> res ''BAD'' = Some \<lparr>costs = replicate 2 PosInf, histories = replicate 2 [],
                               solutions = replicate 2 None\<rparr>)"
proof -
  have h1: "distinct (map fst [(''GWO'', ''run_gwo''), (''BAD'', ''run_bad'')])" by simp
  have h2: "(''BAD'', ''run_bad'') \<in> set [(''GWO'', ''run_gwo''), (''BAD'', ''run_bad'')]" by simp
  have h3: "\<forall>w. fst (call_method [''run_gwo'' \<mapsto> (\<lambda>w. (Returned [1] [Fin 2], w))] ''run_bad'' w) = Raised"
    by (simp add: call_method_def)
  have h4: "\<forall>t<2. \<forall>g. \<exists>w. load_data (constant_draws 0 1 1 3) (RenewableOptimizer 24 30 50) (int t) g = Inr w"
  proof (intro allI impI)
    fix t :: nat and g :: unit
    assume "t < 2"
    then have "(0::int) \<le> int t" "int t < 2 ^ 32" by simp_all
    then show "\<exists>w. load_data (constant_draws 0 1 1 3) (RenewableOptimizer 24 30 50) (int t) g = Inr w"
      by (rule constant_draws_loads)
  qed
  from run_multiple_trials_isolation [OF h1 h2 h3 h4, of "()"] h1 h2 show ?thesis by blast
qed

section \<open>Properties of calculate_soc\<close>

lemma soc_delta_fin: "S \<noteq> 0 \<Longrightarrow> \<exists>d. soc_delta S ut = Fin d"
  by (simp add: soc_delta_def Let_def)

lemma soc_step_ok:
  assumes "S \<noteq> 0"
  shows "soc_ok (fclip (fadd (Fin r) (soc_delta S ut)) 0.1 0.9)"
proof -
  from assms obtain d where d: "soc_delta S ut = Fin d"
    using soc_delta_fin by blast
  have "(0.1::real) \<le> 0.9" by simp
  from clip_bounds [OF this, of "r + d"] show ?thesis by (simp add: d)
qed

lemma soc_ok_Fin: "soc_ok x \<Longrightarrow> \<exists>r. x = Fin r \<and> 0.1 \<le> r \<and> r \<le> 0.9"
  by (cases x) auto

text \<open>
  The loop invariant: before hour \<open>k\<close> the entries below \<open>k\<close> are in range; the loop
  keeps the length and entry \<open>0\<close>.
\<close>

lemma soc_loop_inv:
  assumes "S \<noteq> 0"
  shows "length soc0 = hrs \<Longrightarrow> 1 \<le> k \<Longrightarrow> k \<le> hrs \<Longrightarrow> \<forall>i<k. soc_ok (soc0 ! i) \<Longrightarrow>
     soc_loop S u [k..<hrs] soc0 = Inr soc \<Longrightarrow>
     length soc = hrs \<and> (\<forall>i<hrs. soc_ok (soc ! i)) \<and> soc ! 0 = soc0 ! 0"
proof (induction "hrs - k" arbitrary: k soc0)
  case 0
  then show ?case by simp
next
  case (Suc n)
  then have lt: "k < hrs" by simp
  let ?soc1 = "soc0[k := fclip (fadd (soc0 ! (k - 1)) (soc_delta S (u ! k))) 0.1 0.9]"
  from Suc.prems lt have rec: "soc_loop S u [Suc k..<hrs] ?soc1 = Inr soc"
    by (auto simp: upt_conv_Cons split: if_splits)
  from Suc.prems have "soc_ok (soc0 ! (k - 1))" by simp
  then obtain r where r: "soc0 ! (k - 1) = Fin r"
    using soc_ok_Fin by blast
  have new: "soc_ok (?soc1 ! k)"
    using Suc.prems lt soc_step_ok [OF assms, of r "u ! k"] unfolding r by simp
  have inv: "\<forall>i<Suc k. soc_ok (?soc1 ! i)"
    using Suc.prems new lt by (auto simp: nth_list_update less_Suc_eq)
  have "length soc = hrs \<and> (\<forall>i<hrs. soc_ok (soc ! i)) \<and> soc ! 0 = ?soc1 ! 0"
    using Suc.hyps(1) [of "Suc k" ?soc1] Suc.hyps(2) Suc.prems lt inv rec by simp
  moreover have "?soc1 ! 0 = soc0 ! 0" using Suc.prems by simp
  ultimately show ?case by simp
qed

lemma soc_loop_returns:
  "hrs \<le> length u \<Longrightarrow> \<exists>soc. soc_loop S u [k..<hrs] soc0 = Inr soc"
proof (induction "hrs - k" arbitrary: k soc0)
  case 0
  then show ?case by simp
next
  case (Suc n)
  then have lt: "k < hrs" by simp
  then show ?case using Suc.hyps(1) [of "Suc k"] Suc.hyps(2) Suc.prems
    by (simp add: upt_conv_Cons)
qed

text \<open>
  Claim C7. For a solution whose capacity \<open>S\<close> lies in \<open>[1, 2000]\<close> and \<open>hours \<ge> 1\<close>,
  every sequence that \<open>calculate_soc\<close> returns has \<open>hours\<close> elements, all finite and
  within \<open>[0.1, 0.9]\<close>, the first being \<open>0.5\<close>; and it does return one whenever the
  solution holds a dispatch fraction for every hour.
\<close>

theorem calculate_soc_range:
  assumes "1 \<le> S" "S \<le> 2000" "1 \<le> hrs"
  shows "(hrs \<le> length u \<longrightarrow> (\<exists>soc. calculate_soc (S # u) hrs = Inr soc))
       \<and> (\<forall>soc. calculate_soc (S # u) hrs = Inr soc \<longrightarrow>
            length soc = hrs \<and> soc ! 0 = Fin 0.5
          \<and> (\<forall>x\<in>set soc. \<exists>r. x = Fin r \<and> 0.1 \<le> r \<and> r \<le> 0.9))"
proof (intro conjI allI impI)
  assume "hrs \<le> length u"
  then show "\<exists>soc. calculate_soc (S # u) hrs = Inr soc"
    using assms soc_loop_returns [of hrs u S 1] by (simp add: calculate_soc_def)
next
  fix soc
  assume ret: "calculate_soc (S # u) hrs = Inr soc"
  let ?init = "(replicate hrs (Fin 0))[0 := Fin 0.5]"
  from ret assms have loop: "soc_loop S u [1..<hrs] ?init = Inr soc"
    by (simp add: calculate_soc_def)
  have S0: "S \<noteq> 0" using assms by simp
  have init: "\<forall>i<1. soc_ok (?init ! i)" using assms by simp
  have r: "length soc = hrs \<and> (\<forall>i<hrs. soc_ok (soc ! i)) \<and> soc ! 0 = ?init ! 0"
    using soc_loop_inv [OF S0 _ _ _ init loop] assms by simp
  then show "length soc = hrs" by simp
  from r assms show "soc ! 0 = Fin 0.5" by simp
  show "\<forall>x\<in>set soc. \<exists>r. x = Fin r \<and> 0.1 \<le> r \<and> r \<le> 0.9"
  proof
    fix x assume "x \<in> set soc"
    then obtain i where "i < length soc" "soc ! i = x" by (auto simp: in_set_conv_nth)
    with r have "soc_ok x" by auto
    then show "\<exists>r. x = Fin r \<and> 0.1 \<le> r \<and> r \<le> 0.9"
      by (rule soc_ok_Fin)
  qed
qed

theorem calculate_soc_range_witness:
  "(1::real) \<le> 100 \<and> (100::real) \<le> 2000 \<and> (1::nat) \<le> 3 \<and> (3::nat) \<le> length [0.5, -0.5, 0.25::real]
   \<and> (\<exists>soc. calculate_soc [100, 0.5, -0.5, 0.25] 3 = Inr soc \<and> length soc = 3 \<and> soc ! 0 = Fin 0.5
        \<and> (\<forall>x\<in>set soc. \<exists>r. x = Fin r \<and> 0.1 \<le> r \<and> r \<le> 0.9))"
proof -
  have h1: "(1::real) \<le> 100" and h2: "(100::real) \<le> 2000" and h3: "(1::nat) \<le> 3"
    and h4: "(3::nat) \<le> length [0.5, -0.5, 0.25::real]" by simp_all
  from calculate_soc_range [OF h1 h2 h3, of "[0.5, -0.5, 0.25]"] h1 h2 h3 h4
  show ?thesis by blast
qed






section \<open>Properties of analyze_results\<close>

lemma valid_trials_finite: "valid_trials cs = [x. Fin x \<leftarrow> cs]"
proof (induction cs)
  case Nil
  show ?case by simp
next
  case (Cons c cs)
  then show ?case by (cases c) simp_all
qed

lemma valid_trials_length: "length (valid_trials cs) = length (filter is_finite cs)"
proof (induction cs)
  case Nil
  show ?case by simp
next
  case (Cons c cs)
  then show ?case by (cases c) simp_all
qed

lemma np_min_Min: "xs \<noteq> [] \<Longrightarrow> np_min xs = Min (set xs)"
proof (cases xs)
  case Nil
  assume "xs \<noteq> []"
  with Nil show ?thesis by simp
next
  case (Cons a list)
  then show ?thesis using Min.set_eq_fold [of a list] by (simp add: np_min_def)
qed

lemma np_max_Max: "xs \<noteq> [] \<Longrightarrow> np_max xs = Max (set xs)"
proof (cases xs)
  case Nil
  assume "xs \<noteq> []"
  with Nil show ?thesis by simp
next
  case (Cons a list)
  then show ?thesis using Max.set_eq_fold [of a list] by (simp add: np_max_def)
qed

text \<open>
  Claim C9. For every algorithm of the result collection, \<open>analyze_results\<close> computes
  mean, standard deviation, minimum and maximum over the finite recorded costs only, and
  the success rate is the number of finite costs divided by the number of trials; when
  no recorded cost is finite, the four statistics are NaN and the success rate is 0.
\<close>

theorem analyze_results_summary:
  assumes "results algo = Some d"
  shows "\<exists>st. analyze_results results algo = Some st \<and>
     (if filter is_finite (costs d) = []
      then mean st = NaN \<and> std st = NaN \<and> minimum st = NaN \<and> maximum st = NaN
           \<and> success_rate st = 0
      else (let fin = [x. Fin x \<leftarrow> costs d]; n = real (length fin); mu = sum_list fin / n in
            mean st = Fin mu
            \<and> std st = Fin (sqrt (sum_list (map (\<lambda>x. (x - mu)\<^sup>2) fin) / n))
            \<and> minimum st = Fin (Min (set fin)) \<and> maximum st = Fin (Max (set fin))
            \<and> success_rate st = real (length (filter is_finite (costs d))) / real (length (costs d))))"
proof (cases "filter is_finite (costs d) = []")
  case True
  then have "length (valid_trials (costs d)) = 0" by (simp add: valid_trials_length)
  then show ?thesis using assms True
    by (simp add: analyze_results_def analyze_costs_def)
next
  case False
  then have ne: "valid_trials (costs d) \<noteq> []"
    using valid_trials_length [of "costs d"] by auto
  then have "length (valid_trials (costs d)) \<noteq> 0" by simp
  then show ?thesis using assms False ne
    by (simp add: analyze_results_def analyze_costs_def Let_def np_min_Min np_max_Max
        np_mean_def np_std_def valid_trials_length flip: valid_trials_finite)
qed

theorem analyze_results_summary_witness:
  "[''GWO'' \<mapsto> \<lparr>costs = [Fin 3, PosInf, Fin 5], histories = [], solutions = []\<rparr>] ''GWO''
     = Some \<lparr>costs = [Fin 3, PosInf, Fin 5], histories = [], solutions = []\<rparr>
   \<and> (\<exists>st. analyze_results
          [''GWO'' \<mapsto> \<lparr>costs = [Fin 3, PosInf, Fin 5], histories = [], solutions = []\<rparr>] ''GWO''
          = Some st
        \<and> mean st = Fin 4 \<and> minimum st = Fin 3 \<and> maximum st = Fin 5 \<and> success_rate st = 2 / 3)"
proof -
  have h: "[''GWO'' \<mapsto> \<lparr>costs = [Fin 3, PosInf, Fin 5], histories = [], solutions = []\<rparr>] ''GWO''
     = Some \<lparr>costs = [Fin 3, PosInf, Fin 5], histories = [], solutions = []\<rparr>" by simp
  from analyze_results_summary
      [where results = "[''GWO'' \<mapsto> \<lparr>costs = [Fin 3, PosInf, Fin 5], histories = [], solutions = []\<rparr>]"
        and algo = "''GWO''"
        and d = "\<lparr>costs = [Fin 3, PosInf, Fin 5], histories = [], solutions = []\<rparr>", OF h] h
  show ?thesis
    by (auto simp: Let_def)
qed

end
